theory Spec2Isabelle
  imports Main "HOL-Library.Stream" "HOL-Library.Word"
begin

section \<open>The Cooldown gate\<close>

text \<open>
  The class \<open>Cooldown\<close> keeps a number \<open>cooldown\<close> and an array \<open>cooldownList\<close> of
  entries \<open>{ _id, timer }\<close>. Times are millisecond counts; they are modelled as integers
  (\<open>Date.now()\<close> yields an integer, and JavaScript numbers are exact on integers of that
  size). \<open>NaN\<close> and the infinities are outside the model.

  \<open>Date.now()\<close> is read from the wall clock every time it is evaluated, and one call of
  \<open>hold\<close> evaluates it up to three times. The clock is therefore a stream of readings:
  every evaluation of \<open>Date.now()\<close> takes the head of the stream and leaves the tail.
\<close>

record CooldownEntry =
  entry_id :: string
  timer :: int

record CooldownResult =
  state :: bool

record Cooldown =
  cooldown :: int
  cooldownList :: "CooldownEntry list"

type_synonym clock = "int stream"

definition Date_now :: "clock \<Rightarrow> int \<times> clock" where
  "Date_now clk = (shd clk, stl clk)"

text \<open>The constructor: \<open>this.cooldown = cooldown; this.cooldownList = []\<close>.\<close>

definition Cooldown_new :: "int \<Rightarrow> Cooldown" where
  "Cooldown_new c = \<lparr>cooldown = c, cooldownList = []\<rparr>"

text \<open>\<open>find\<close>: the first entry of the array whose \<open>_id\<close> is the key, or \<open>undefined\<close>.\<close>

definition find_entry :: "Cooldown \<Rightarrow> string \<Rightarrow> CooldownEntry option" where
  "find_entry g k = List.find (\<lambda>entry. entry_id entry = k) (cooldownList g)"

text \<open>\<open>pushId\<close>: append \<open>{ _id: id, timer: Date.now() }\<close>.\<close>

definition pushId :: "string \<Rightarrow> Cooldown \<times> clock \<Rightarrow> Cooldown \<times> clock" where
  "pushId k = (\<lambda>(g, clk).
     (let (t, clk') = Date_now clk
      in (g\<lparr>cooldownList := cooldownList g @ [\<lparr>entry_id = k, timer = t\<rparr>]\<rparr>, clk')))"

text \<open>
  The assignment \<open>entry.timer = t\<close>, where \<open>entry\<close> is the object that \<open>find\<close> returned:
  the first entry of the array with that key is the one that changes.
\<close>

fun assign_timer :: "CooldownEntry list \<Rightarrow> string \<Rightarrow> int \<Rightarrow> CooldownEntry list" where
  "assign_timer [] k t = []"
| "assign_timer (e # es) k t =
     (if entry_id e = k then e\<lparr>timer := t\<rparr> # es else e # assign_timer es k t)"

text \<open>
  \<open>hold(id, delay)\<close>, branch by branch as in the source. The result is the returned object,
  the gate after the call and the rest of the clock.
\<close>

definition hold :: "string \<Rightarrow> int \<Rightarrow> Cooldown \<times> clock \<Rightarrow> CooldownResult \<times> Cooldown \<times> clock" where
  "hold k delay = (\<lambda>(g, clk).
     (case find_entry g k of
        None \<Rightarrow> (\<lparr>state = False\<rparr>, pushId k (g, clk))
      | Some entry \<Rightarrow>
          (let (t1, clk1) = Date_now clk in
           if t1 - timer entry < cooldown g - delay then (\<lparr>state = True\<rparr>, g, clk1)
           else
             (let (t2, clk2) = Date_now clk1 in
              if max 0 (cooldown g - delay - (t2 - timer entry)) < 15000 then
                (let (t3, clk3) = Date_now clk2 in
                 (\<lparr>state = False\<rparr>,
                  g\<lparr>cooldownList := assign_timer (cooldownList g) k t3\<rparr>, clk3))
              else (\<lparr>state = False\<rparr>, g, clk2)))))"

text \<open>The default parameter \<open>delay = 3000\<close>.\<close>

definition hold_default :: "string \<Rightarrow> Cooldown \<times> clock \<Rightarrow> CooldownResult \<times> Cooldown \<times> clock" where
  "hold_default k = hold k 3000"

text \<open>\<open>check(id)\<close>: the same tests with the margin fixed at 3000 and no assignment.\<close>

definition check :: "string \<Rightarrow> Cooldown \<times> clock \<Rightarrow> CooldownResult \<times> Cooldown \<times> clock" where
  "check k = (\<lambda>(g, clk).
     (case find_entry g k of
        None \<Rightarrow> (\<lparr>state = False\<rparr>, g, clk)
      | Some entry \<Rightarrow>
          (let (t1, clk1) = Date_now clk in
           if t1 - timer entry < cooldown g - 3000 then (\<lparr>state = True\<rparr>, g, clk1)
           else
             (let (t2, clk2) = Date_now clk1 in
              if max 0 (cooldown g - 3000 - (t2 - timer entry)) < 15000 then
                (\<lparr>state = False\<rparr>, g, clk2)
              else (\<lparr>state = False\<rparr>, g, clk2)))))"

text \<open>A caller's sequence of operations on one gate, threaded through gate and clock.\<close>

datatype gate_op = Hold string int | Check string

fun apply_op :: "gate_op \<Rightarrow> Cooldown \<times> clock \<Rightarrow> CooldownResult \<times> Cooldown \<times> clock" where
  "apply_op (Hold k delay) w = hold k delay w"
| "apply_op (Check k) w = check k w"

fun run :: "gate_op list \<Rightarrow> Cooldown \<times> clock \<Rightarrow> Cooldown \<times> clock" where
  "run [] w = w"
| "run (op # ops) w = run ops (snd (apply_op op w))"

section \<open>The retrying requests\<close>

text \<open>
  \<open>request\<close> and \<open>requestBuffer\<close> of \<open>Scripts/Siputzx.ts\<close>. What the functions throw:
  the rejection of an aborted \<open>fetch\<close> (\<open>error.name === 'AbortError'\<close>), the four errors
  the source constructs itself, and any other rejection of \<open>fetch\<close> or of a body read
  (network failure, invalid JSON).
\<close>

datatype error =
    AbortError
  | HttpError int string
  | NonBinaryResponse
  | RetriesExhausted string int
  | UnknownRetryError
  | OtherError string

type_synonym bytes = "8 word list"

text \<open>
  What a promise of the remote side does: it never settles, or it settles a number of
  milliseconds after it was started.
\<close>

datatype 'a settling = Never | After int 'a

text \<open>
  A response as the functions use it: its status, its \<open>Content-Type\<close> header
  (\<open>headers.get\<close> yields \<open>null\<close> when the header is absent) and, for each way of reading
  the body, what the read does: it never settles, or it settles some milliseconds after
  the response, with a value (\<open>Inr\<close>) or with a rejection (\<open>Inl\<close>). \<open>response.ok\<close> is the
  Fetch API's test for a status from 200 to 299.
\<close>

record 'j Response =
  status :: int
  headers_get_Content_Type :: "string option"
  response_text :: "(error + string) settling"
  response_json :: "(error + 'j) settling"
  response_arrayBuffer :: "(error + bytes) settling"

definition ok :: "'j Response \<Rightarrow> bool" where
  "ok response = (200 \<le> status response \<and> status response \<le> 299)"

text \<open>
  The remote side of one attempt: the underlying request never settles, or settles a
  number of milliseconds after the call, with a response or with a rejection. At a tie
  between settlement and timer the event loop decides; \<open>timer_first\<close> is its decision.
\<close>

datatype 'j settlement = Resolves "'j Response" | Rejects error

type_synonym 'j behaviour = "'j settlement settling"

record 'j network =
  behaviour :: "int \<Rightarrow> 'j behaviour"
  timer_first :: bool

text \<open>
  \<open>setTimeout(() => controller.abort(), timeoutMs)\<close> followed by
  \<open>await fetch(url, { ..., signal: controller.signal })\<close>: when the timer fires before the
  request has settled, \<open>fetch\<close> rejects with the abort error; otherwise the settlement is
  what \<open>await\<close> yields.
\<close>

definition fetch :: "'j network \<Rightarrow> int \<Rightarrow> int \<Rightarrow> error + 'j Response" where
  "fetch net timeoutMs attempt =
     (case behaviour net attempt of
        Never \<Rightarrow> Inl AbortError
      | After d s \<Rightarrow>
          (if timeoutMs < d \<or> (d = timeoutMs \<and> timer_first net) then Inl AbortError
           else (case s of Resolves response \<Rightarrow> Inr response | Rejects e \<Rightarrow> Inl e)))"

text \<open>
  \<open>await\<close> on a body read. The source calls \<open>clearTimeout(timeout)\<close> as soon as \<open>fetch\<close>
  has resolved, before any body read, so no timer runs here: however late the read
  settles, \<open>await\<close> yields its settlement, and when the read never settles, \<open>await\<close>
  never comes back (\<open>None\<close>).
\<close>

definition await :: "'a settling \<Rightarrow> 'a option" where
  "await p = (case p of Never \<Rightarrow> None | After d x \<Rightarrow> Some x)"

text \<open>\<open>String.prototype.includes\<close>: the argument occurs as a contiguous part.\<close>

fun includes_str :: "string \<Rightarrow> string \<Rightarrow> bool" where
  "includes_str [] sub = (sub = [])"
| "includes_str (c # cs) sub = (take (length sub) (c # cs) = sub \<or> includes_str cs sub)"

text \<open>The constant \<open>contentType\<close> of \<open>requestBuffer\<close>: \<open>headers.get('Content-Type') || ''\<close>.\<close>

definition contentType_of :: "'j Response \<Rightarrow> string" where
  "contentType_of response =
     (case headers_get_Content_Type response of None \<Rightarrow> [] | Some s \<Rightarrow> s)"

text \<open>
  How the \<open>try\<close> block of one iteration ends: by \<open>continue\<close>, by \<open>return\<close>, or (\<open>Inl\<close>)
  by an exception, which its own \<open>catch\<close> block receives; \<open>None\<close> when it does not end,
  because an \<open>await\<close> in it never comes back.
\<close>

datatype 'a flow = Continue | Return 'a

definition request_try :: "'j network \<Rightarrow> int \<Rightarrow> int \<Rightarrow> int \<Rightarrow> (error + 'j flow) option" where
  "request_try net retryCount timeoutMs attempt =
     (case fetch net timeoutMs attempt of
        Inl e \<Rightarrow> Some (Inl e)
      | Inr response \<Rightarrow>
          (if \<not> ok response then
             (if 500 \<le> status response \<and> status response < 600 \<and> attempt < retryCount
              then Some (Inr Continue)
              else (case await (response_text response) of
                      None \<Rightarrow> None
                    | Some (Inl e) \<Rightarrow> Some (Inl e)
                    | Some (Inr errorText) \<Rightarrow>
                        Some (Inl (HttpError (status response) errorText))))
           else (case await (response_json response) of
                   None \<Rightarrow> None
                 | Some (Inl e) \<Rightarrow> Some (Inl e)
                 | Some (Inr data) \<Rightarrow> Some (Inr (Return data)))))"

definition requestBuffer_try ::
    "'j network \<Rightarrow> int \<Rightarrow> int \<Rightarrow> int \<Rightarrow> (error + bytes flow) option" where
  "requestBuffer_try net retryCount timeoutMs attempt =
     (case fetch net timeoutMs attempt of
        Inl e \<Rightarrow> Some (Inl e)
      | Inr response \<Rightarrow>
          (if \<not> ok response then
             (if 500 \<le> status response \<and> status response < 600 \<and> attempt < retryCount
              then Some (Inr Continue)
              else (case await (response_text response) of
                      None \<Rightarrow> None
                    | Some (Inl e) \<Rightarrow> Some (Inl e)
                    | Some (Inr errorText) \<Rightarrow>
                        Some (Inl (HttpError (status response) errorText))))
           else
             (let contentType = contentType_of response
              in if includes_str contentType ''application/octet-stream''
                    \<or> includes_str contentType ''image/''
                 then (case await (response_arrayBuffer response) of
                         None \<Rightarrow> None
                       | Some (Inl e) \<Rightarrow> Some (Inl e)
                       | Some (Inr buffer) \<Rightarrow> Some (Inr (Return buffer)))
                 else Some (Inl NonBinaryResponse))))"

text \<open>
  The \<open>catch\<close> block: on the last attempt the error is thrown again (\<open>Some\<close>), otherwise
  the block ends and the loop goes on (\<open>None\<close>). The console output is not modelled.
\<close>

definition catch_block :: "error \<Rightarrow> int \<Rightarrow> int \<Rightarrow> error option" where
  "catch_block error attempt retryCount = (if attempt = retryCount then Some error else None)"

text \<open>
  The loop \<open>for (let attempt = 1; attempt <= retryCount; attempt++)\<close> from a given
  attempt on. The outcome of the call is \<open>Some (Inl e)\<close> when it throws \<open>e\<close>,
  \<open>Some (Inr data)\<close> when it returns \<open>data\<close>, and \<open>None\<close> when it never comes back. Beside
  the outcome the model counts the calls of \<open>fetch\<close>, that is the attempts made.
  \<open>retryCount\<close> and \<open>timeoutMs\<close> are integers. The query parameters, the method and the
  request body only reach \<open>fetch\<close>; they belong to the remote side. The endpoint is kept for
  the message of the error thrown after the loop.
\<close>

definition counted :: "'r \<times> nat \<Rightarrow> 'r \<times> nat" where
  "counted p = (fst p, Suc (snd p))"

function request_loop ::
    "'j network \<Rightarrow> string \<Rightarrow> int \<Rightarrow> int \<Rightarrow> int \<Rightarrow> (error + 'j) option \<times> nat" where
  "request_loop net endpoint retryCount timeoutMs attempt =
     (if attempt \<le> retryCount then
        (case request_try net retryCount timeoutMs attempt of
           None \<Rightarrow> (None, 1)
         | Some (Inr (Return data)) \<Rightarrow> (Some (Inr data), 1)
         | Some (Inr Continue) \<Rightarrow>
             counted (request_loop net endpoint retryCount timeoutMs (attempt + 1))
         | Some (Inl error) \<Rightarrow>
             (case catch_block error attempt retryCount of
                Some e \<Rightarrow> (Some (Inl e), 1)
              | None \<Rightarrow> counted (request_loop net endpoint retryCount timeoutMs (attempt + 1))))
      else (Some (Inl (RetriesExhausted endpoint retryCount)), 0))"
  by pat_completeness auto
termination
  by (relation "measure (\<lambda>(net, endpoint, retryCount, timeoutMs, attempt). nat (retryCount + 1 - attempt))")
     auto

function requestBuffer_loop ::
    "'j network \<Rightarrow> string \<Rightarrow> int \<Rightarrow> int \<Rightarrow> int \<Rightarrow> (error + bytes) option \<times> nat" where
  "requestBuffer_loop net endpoint retryCount timeoutMs attempt =
     (if attempt \<le> retryCount then
        (case requestBuffer_try net retryCount timeoutMs attempt of
           None \<Rightarrow> (None, 1)
         | Some (Inr (Return buffer)) \<Rightarrow> (Some (Inr buffer), 1)
         | Some (Inr Continue) \<Rightarrow>
             counted (requestBuffer_loop net endpoint retryCount timeoutMs (attempt + 1))
         | Some (Inl error) \<Rightarrow>
             (case catch_block error attempt retryCount of
                Some e \<Rightarrow> (Some (Inl e), 1)
              | None \<Rightarrow>
                  counted (requestBuffer_loop net endpoint retryCount timeoutMs (attempt + 1))))
      else (Some (Inl UnknownRetryError), 0))"
  by pat_completeness auto
termination
  by (relation "measure (\<lambda>(net, endpoint, retryCount, timeoutMs, attempt). nat (retryCount + 1 - attempt))")
     auto

declare request_loop.simps [simp del] requestBuffer_loop.simps [simp del]

definition request ::
    "'j network \<Rightarrow> string \<Rightarrow> int \<Rightarrow> int \<Rightarrow> (error + 'j) option \<times> nat" where
  "request net endpoint retryCount timeoutMs = request_loop net endpoint retryCount timeoutMs 1"

definition requestBuffer ::
    "'j network \<Rightarrow> string \<Rightarrow> int \<Rightarrow> int \<Rightarrow> (error + bytes) option \<times> nat" where
  "requestBuffer net endpoint retryCount timeoutMs =
     requestBuffer_loop net endpoint retryCount timeoutMs 1"

section \<open>Notions used in the statements\<close>

text \<open>Every key of the table has one record: the keys of the array are pairwise different.\<close>

definition unique_keys :: "Cooldown \<Rightarrow> bool" where
  "unique_keys g = distinct (map entry_id (cooldownList g))"

text \<open>
  The \<open>fetch\<close> call of an attempt, that is the underlying request up to its response,
  settles within the timeout. The body read that may follow is not part of it.
\<close>

definition fetch_settles_within :: "int \<Rightarrow> 'j behaviour \<Rightarrow> bool" where
  "fetch_settles_within timeoutMs b =
     (case b of Never \<Rightarrow> False | After d s \<Rightarrow> d \<le> timeoutMs)"

text \<open>
  An attempt of \<open>request\<close> fails: its \<open>try\<close> block ends with an exception or with
  \<open>continue\<close>, so neither with \<open>return\<close> nor not at all.
\<close>

definition fails :: "'j network \<Rightarrow> int \<Rightarrow> int \<Rightarrow> int \<Rightarrow> bool" where
  "fails net retryCount timeoutMs attempt =
     (case request_try net retryCount timeoutMs attempt of
        None \<Rightarrow> False
      | Some (Inl e) \<Rightarrow> True
      | Some (Inr Continue) \<Rightarrow> True
      | Some (Inr (Return data)) \<Rightarrow> False)"


subsection \<open>Remote sides for the examples\<close>

text \<open>Responses whose body is read 5 ms after the response.\<close>

definition json_response :: "int \<Rightarrow> string \<Rightarrow> string Response" where
  "json_response st body =
     \<lparr>status = st, headers_get_Content_Type = Some ''application/json'',
      response_text = After 5 (Inr body), response_json = After 5 (Inr body),
      response_arrayBuffer = After 5 (Inr [])\<rparr>"

definition html_response :: "string Response" where
  "html_response =
     \<lparr>status = 200, headers_get_Content_Type = Some ''text/html'',
      response_text = After 5 (Inr ''<html></html>''),
      response_json = After 5 (Inl (OtherError ''SyntaxError'')),
      response_arrayBuffer = After 5 (Inr [60, 104, 116, 109, 108, 62])\<rparr>"

definition png_response :: "string Response" where
  "png_response =
     \<lparr>status = 200, headers_get_Content_Type = Some ''image/png'',
      response_text = After 5 (Inr ''PNG''),
      response_json = After 5 (Inl (OtherError ''SyntaxError'')),
      response_arrayBuffer = After 5 (Inr [137, 80, 78, 71])\<rparr>"

text \<open>A 200 response whose body takes 652 ms to arrive.\<close>

definition slow_response :: "string Response" where
  "slow_response =
     \<lparr>status = 200, headers_get_Content_Type = Some ''application/json'',
      response_text = After 652 (Inr ''data''), response_json = After 652 (Inr ''data''),
      response_arrayBuffer = After 652 (Inr [])\<rparr>"

text \<open>Every attempt gets the same response after 120 ms.\<close>

definition always :: "'j Response \<Rightarrow> 'j network" where
  "always r = \<lparr>behaviour = (\<lambda>attempt. After 120 (Resolves r)), timer_first = True\<rparr>"

text \<open>The first attempt gets one response, every later attempt another.\<close>

definition first_then :: "'j Response \<Rightarrow> 'j Response \<Rightarrow> 'j network" where
  "first_then r1 r2 =
     \<lparr>behaviour = (\<lambda>attempt. After 120 (Resolves (if attempt = 1 then r1 else r2))),
      timer_first = True\<rparr>"

text \<open>No request ever settles.\<close>

definition silent :: "string network" where
  "silent = \<lparr>behaviour = (\<lambda>attempt. Never), timer_first = False\<rparr>"

section \<open>Properties of the Cooldown gate\<close>

lemma find_assign_timer:
  "List.find (\<lambda>e. entry_id e = k) es = Some entry \<Longrightarrow>
   List.find (\<lambda>e. entry_id e = k) (assign_timer es k t) = Some (entry\<lparr>timer := t\<rparr>)"
  by (induction es) (auto split: if_splits)

lemma ids_assign_timer: "map entry_id (assign_timer es k t) = map entry_id es"
  by (induction es) auto

lemma find_None_iff_ids:
  "List.find (\<lambda>e. entry_id e = k) es = None \<longleftrightarrow> k \<notin> set (map entry_id es)"
  by (induction es) auto

text \<open>
  Claim C8. When the key has a record and the first clock reading of the call is within
  the strict window (\<open>now - timer < cooldown - delay\<close>), \<open>hold\<close> returns \<open>{state: true}\<close>
  and the gate after the call is the gate before it. The example of the claim is the
  witness: on a fresh gate with cooldown 10000, \<open>hold("b")\<close> followed at once by
  \<open>hold("b")\<close> returns \<open>{state: true}\<close> the second time and leaves the table as the first
  call made it.
\<close>

theorem hold_held_idempotent:
  assumes "find_entry g k = Some entry"
    and "shd clk - timer entry < cooldown g - delay"
  shows "hold k delay (g, clk) = (\<lparr>state = True\<rparr>, g, stl clk)"
  using assms by (simp add: hold_def Date_now_def)

theorem hold_held_idempotent_witness:
  "find_entry (fst (snd (hold_default ''b'' (Cooldown_new 10000, sconst 5000)))) ''b''
      = Some \<lparr>entry_id = ''b'', timer = 5000\<rparr> \<and>
   shd (sconst (5000::int)) - timer \<lparr>entry_id = ''b'', timer = 5000\<rparr>
      < cooldown (fst (snd (hold_default ''b'' (Cooldown_new 10000, sconst 5000)))) - 3000 \<and>
   hold_default ''b'' (snd (hold_default ''b'' (Cooldown_new 10000, sconst 5000)))
      = (\<lparr>state = True\<rparr>,
         fst (snd (hold_default ''b'' (Cooldown_new 10000, sconst 5000))), sconst 5000)"
proof -
  let ?e = "\<lparr>entry_id = ''b'', timer = 5000\<rparr>"
  let ?g = "\<lparr>cooldown = 10000, cooldownList = [?e]\<rparr>"
  have first: "hold_default ''b'' (Cooldown_new 10000, sconst 5000)
      = (\<lparr>state = False\<rparr>, ?g, sconst 5000)"
    by (simp add: hold_default_def hold_def Cooldown_new_def find_entry_def pushId_def
        Date_now_def)
  have h1: "find_entry ?g ''b'' = Some ?e"
    by (simp add: find_entry_def)
  have h2: "shd (sconst (5000::int)) - timer ?e < cooldown ?g - 3000"
    by simp
  from hold_held_idempotent [OF h1 h2] first h1 h2 show ?thesis
    by (simp add: hold_default_def)
qed

text \<open>
  Claim C2, as stated, fails: the key has a record and at the first clock reading of the
  call the elapsed time (50000) is at least \<open>cooldown - delay\<close> (27000), but the wall clock
  is set back before the second reading, the remaining time computed from it is 26000,
  and \<open>hold\<close> ends in its last branch: the timestamp of the record is not refreshed.
\<close>

theorem hold_past_window_clock_set_back:
  "find_entry \<lparr>cooldown = 30000, cooldownList = [\<lparr>entry_id = ''a'', timer = 0\<rparr>]\<rparr> ''a''
      = Some \<lparr>entry_id = ''a'', timer = 0\<rparr> \<and>
   cooldown \<lparr>cooldown = 30000, cooldownList = [\<lparr>entry_id = ''a'', timer = 0\<rparr>]\<rparr> - 3000
      \<le> shd (50000 ## sconst 1000) - timer \<lparr>entry_id = ''a'', timer = 0\<rparr> \<and>
   hold ''a'' 3000
      (\<lparr>cooldown = 30000, cooldownList = [\<lparr>entry_id = ''a'', timer = 0\<rparr>]\<rparr>,
       50000 ## sconst 1000)
      = (\<lparr>state = False\<rparr>,
         \<lparr>cooldown = 30000, cooldownList = [\<lparr>entry_id = ''a'', timer = 0\<rparr>]\<rparr>,
         sconst 1000)"
  by (simp add: find_entry_def hold_def Date_now_def)

text \<open>
  Claim C2, amended. When the key has a record, the elapsed time at the first clock
  reading of the call is at least \<open>cooldown - delay\<close>, and the second reading is not
  earlier than the first (as with one \<open>now\<close> for the whole call), then the floored
  remaining time is 0, \<open>hold\<close> returns \<open>{state: false}\<close>, and the record of the key carries
  the reading of the assignment as its new timestamp: the call does not end in the last
  branch.
\<close>

theorem hold_past_window_refreshes:
  assumes "find_entry g k = Some entry"
    and "cooldown g - delay \<le> shd clk - timer entry"
    and "shd clk \<le> shd (stl clk)"
  shows "max 0 (cooldown g - delay - (shd (stl clk) - timer entry)) = 0 \<and>
     hold k delay (g, clk) =
       (\<lparr>state = False\<rparr>,
        g\<lparr>cooldownList := assign_timer (cooldownList g) k (shd (stl (stl clk)))\<rparr>,
        stl (stl (stl clk))) \<and>
     find_entry (fst (snd (hold k delay (g, clk)))) k
       = Some (entry\<lparr>timer := shd (stl (stl clk))\<rparr>)"
  using assms
  by (simp add: hold_def Date_now_def find_entry_def find_assign_timer)

theorem hold_past_window_refreshes_witness:
  "find_entry \<lparr>cooldown = 10000, cooldownList = [\<lparr>entry_id = ''a'', timer = 0\<rparr>]\<rparr> ''a''
      = Some \<lparr>entry_id = ''a'', timer = 0\<rparr> \<and>
   hold ''a'' 3000
      (\<lparr>cooldown = 10000, cooldownList = [\<lparr>entry_id = ''a'', timer = 0\<rparr>]\<rparr>, sconst 8000)
      = (\<lparr>state = False\<rparr>,
         \<lparr>cooldown = 10000, cooldownList = [\<lparr>entry_id = ''a'', timer = 8000\<rparr>]\<rparr>,
         sconst 8000)"
proof -
  let ?e = "\<lparr>entry_id = ''a'', timer = 0\<rparr>"
  let ?g = "\<lparr>cooldown = 10000, cooldownList = [?e]\<rparr>"
  let ?clk = "sconst (8000::int)"
  have h1: "find_entry ?g ''a'' = Some ?e"
    by (simp add: find_entry_def)
  have h2: "cooldown ?g - 3000 \<le> shd ?clk - timer ?e" by simp
  have h3: "shd ?clk \<le> shd (stl ?clk)" by simp
  from hold_past_window_refreshes [OF h1 h2 h3] h1 show ?thesis by simp
qed

text \<open>
  Claim C5. When the key has a record, the elapsed time at the first clock reading is at
  least \<open>cooldown - delay\<close>, and the floored remaining time computed from the second
  reading is at least 15000, \<open>hold\<close> returns \<open>{state: false}\<close> and the gate after the
  call is the gate before it. The two conditions hold together only when the second
  reading is earlier than the first, as in the witness, where the wall clock is set back
  between the two readings.
\<close>

theorem hold_fallback_no_mutation:
  assumes "find_entry g k = Some entry"
    and "cooldown g - delay \<le> shd clk - timer entry"
    and "15000 \<le> max 0 (cooldown g - delay - (shd (stl clk) - timer entry))"
  shows "hold k delay (g, clk) = (\<lparr>state = False\<rparr>, g, stl (stl clk))"
proof -
  from assms(3)
  have "\<not> max 0 (cooldown g - delay - (shd (stl clk) - timer entry)) < 15000"
    by simp
  with assms(1,2) show ?thesis
    by (simp add: hold_def Date_now_def)
qed

theorem hold_fallback_no_mutation_witness:
  "find_entry \<lparr>cooldown = 60000, cooldownList = [\<lparr>entry_id = ''a'', timer = 0\<rparr>]\<rparr> ''a''
      = Some \<lparr>entry_id = ''a'', timer = 0\<rparr> \<and>
   hold ''a'' 3000
      (\<lparr>cooldown = 60000, cooldownList = [\<lparr>entry_id = ''a'', timer = 0\<rparr>]\<rparr>,
       100000 ## sconst 0)
      = (\<lparr>state = False\<rparr>,
         \<lparr>cooldown = 60000, cooldownList = [\<lparr>entry_id = ''a'', timer = 0\<rparr>]\<rparr>, sconst 0)"
proof -
  let ?e = "\<lparr>entry_id = ''a'', timer = 0\<rparr>"
  let ?g = "\<lparr>cooldown = 60000, cooldownList = [?e]\<rparr>"
  let ?clk = "100000 ## sconst (0::int)"
  have h1: "find_entry ?g ''a'' = Some ?e"
    by (simp add: find_entry_def)
  have h2: "cooldown ?g - 3000 \<le> shd ?clk - timer ?e" by simp
  have h3: "15000 \<le> max 0 (cooldown ?g - 3000 - (shd (stl ?clk) - timer ?e))" by simp
  from hold_fallback_no_mutation [OF h1 h2 h3] h1 show ?thesis by simp
qed

lemma check_gate: "fst (snd (check k (g, clk))) = g"
  by (simp add: check_def Date_now_def split: option.split)

lemma run_checks_gate: "fst (run (map Check ks) (g, clk)) = g"
proof (induction ks arbitrary: clk)
  case Nil
  show ?case by simp
next
  case (Cons k ks)
  obtain r clk' where step: "check k (g, clk) = (r, g, clk')"
    using check_gate [of k g clk] by (cases "check k (g, clk)") auto
  then show ?case using Cons.IH [of clk'] by simp
qed

text \<open>
  Claim C9. The gate after \<open>check\<close> is the gate before it, whatever the key, the table
  and the clock; so is the gate after any sequence of \<open>check\<close> calls; and after any
  number of \<open>check\<close> calls on a key, \<open>find\<close> gives for the key what it gave before, so a
  key without a record still has none.
\<close>

theorem check_never_mutates:
  "fst (snd (check k (g, clk))) = g \<and>
   fst (run (map Check ks) (g, clk)) = g \<and>
   find_entry (fst (run (replicate n (Check k)) (g, clk))) k = find_entry g k"
proof -
  have "replicate n (Check k) = map Check (replicate n k)" by simp
  then have "fst (run (replicate n (Check k)) (g, clk)) = g"
    using run_checks_gate [of "replicate n k" g clk] by simp
  then show ?thesis by (simp add: check_gate run_checks_gate)
qed

lemma unique_keys_pushId:
  "unique_keys g \<Longrightarrow> find_entry g k = None \<Longrightarrow> unique_keys (fst (pushId k (g, clk)))"
  by (simp add: unique_keys_def pushId_def Date_now_def find_entry_def find_None_iff_ids)

lemma unique_keys_hold: "unique_keys g \<Longrightarrow> unique_keys (fst (snd (hold k delay (g, clk))))"
  by (cases "find_entry g k")
     (simp_all add: hold_def Date_now_def unique_keys_pushId,
      simp add: unique_keys_def ids_assign_timer)

lemma unique_keys_apply_op: "unique_keys g \<Longrightarrow> unique_keys (fst (snd (apply_op op (g, clk))))"
  by (cases op) (simp_all add: unique_keys_hold check_gate)

lemma unique_keys_run: "unique_keys (fst w) \<Longrightarrow> unique_keys (fst (run ops w))"
proof (induction ops arbitrary: w)
  case Nil
  then show ?case by simp
next
  case (Cons op ops)
  obtain g clk where w: "w = (g, clk)" by (cases w)
  obtain r g' clk' where step: "apply_op op (g, clk) = (r, g', clk')"
    by (cases "apply_op op (g, clk)")
  from Cons.prems w have "unique_keys g" by simp
  then have "unique_keys g'" using unique_keys_apply_op [of g op clk] step by simp
  then have "unique_keys (fst (run ops (g', clk')))" using Cons.IH [of "(g', clk')"] by simp
  then show ?case using w step by simp
qed

lemma distinct_filter_le1:
  "distinct (map f xs) \<Longrightarrow> length (filter (\<lambda>x. f x = k) xs) \<le> 1"
proof (induction xs)
  case Nil
  show ?case by simp
next
  case (Cons x xs)
  show ?case
  proof (cases "f x = k")
    case True
    with Cons.prems have "k \<notin> f ` set xs" by simp
    then have "\<forall>y\<in>set xs. f y \<noteq> k" by blast
    then have "filter (\<lambda>x. f x = k) xs = []" by (simp add: filter_empty_conv)
    with True show ?thesis by simp
  next
    case False
    with Cons show ?thesis by simp
  qed
qed

text \<open>
  Claim C10. After any sequence of \<open>hold\<close> and \<open>check\<close> calls on a gate that starts with
  the empty table, whatever the delays and the clock, the keys of the table are pairwise
  different: for every key, the table holds at most one record.
\<close>

theorem one_record_per_key:
  "unique_keys (fst (run ops (Cooldown_new c, clk))) \<and>
   length (filter (\<lambda>entry. entry_id entry = k)
             (cooldownList (fst (run ops (Cooldown_new c, clk))))) \<le> 1"
proof -
  have "unique_keys (Cooldown_new c)" by (simp add: unique_keys_def Cooldown_new_def)
  then have u: "unique_keys (fst (run ops (Cooldown_new c, clk)))"
    using unique_keys_run [of "(Cooldown_new c, clk)" ops] by simp
  then have d: "distinct (map entry_id (cooldownList (fst (run ops (Cooldown_new c, clk)))))"
    by (simp add: unique_keys_def)
  from u distinct_filter_le1 [OF d, of k] show ?thesis by simp
qed

section \<open>Properties of the retrying requests\<close>

lemma request_loop_return:
  "attempt \<le> retryCount \<Longrightarrow>
   request_try net retryCount timeoutMs attempt = Some (Inr (Return d)) \<Longrightarrow>
   request_loop net endpoint retryCount timeoutMs attempt = (Some (Inr d), 1)"
  by (subst request_loop.simps) simp

lemma request_loop_continue:
  "attempt \<le> retryCount \<Longrightarrow>
   request_try net retryCount timeoutMs attempt = Some (Inr Continue) \<Longrightarrow>
   request_loop net endpoint retryCount timeoutMs attempt =
     counted (request_loop net endpoint retryCount timeoutMs (attempt + 1))"
  by (subst request_loop.simps) simp

lemma request_loop_caught:
  "attempt < retryCount \<Longrightarrow> request_try net retryCount timeoutMs attempt = Some (Inl e) \<Longrightarrow>
   request_loop net endpoint retryCount timeoutMs attempt =
     counted (request_loop net endpoint retryCount timeoutMs (attempt + 1))"
  by (subst request_loop.simps) (simp add: catch_block_def)

lemma request_loop_rethrown:
  "request_try net retryCount timeoutMs retryCount = Some (Inl e) \<Longrightarrow>
   request_loop net endpoint retryCount timeoutMs retryCount = (Some (Inl e), 1)"
  by (subst request_loop.simps) (simp add: catch_block_def)

lemma request_loop_pending:
  "attempt \<le> retryCount \<Longrightarrow> request_try net retryCount timeoutMs attempt = None \<Longrightarrow>
   request_loop net endpoint retryCount timeoutMs attempt = (None, 1)"
  by (subst request_loop.simps) simp

lemma request_loop_exhausted:
  "retryCount < attempt \<Longrightarrow>
   request_loop net endpoint retryCount timeoutMs attempt
     = (Some (Inl (RetriesExhausted endpoint retryCount)), 0)"
  by (subst request_loop.simps) simp

lemma requestBuffer_loop_caught:
  "attempt < retryCount \<Longrightarrow>
   requestBuffer_try net retryCount timeoutMs attempt = Some (Inl e) \<Longrightarrow>
   requestBuffer_loop net endpoint retryCount timeoutMs attempt =
     counted (requestBuffer_loop net endpoint retryCount timeoutMs (attempt + 1))"
  by (subst requestBuffer_loop.simps) (simp add: catch_block_def)

lemma requestBuffer_loop_rethrown:
  "requestBuffer_try net retryCount timeoutMs retryCount = Some (Inl e) \<Longrightarrow>
   requestBuffer_loop net endpoint retryCount timeoutMs retryCount = (Some (Inl e), 1)"
  by (subst requestBuffer_loop.simps) (simp add: catch_block_def)

text \<open>The equations that evaluate a call on a given remote side.\<close>

lemmas eval_defs = request_def request_loop.simps request_try_def requestBuffer_def
  requestBuffer_loop.simps requestBuffer_try_def fetch_def await_def catch_block_def
  counted_def ok_def contentType_of_def always_def first_then_def silent_def
  json_response_def html_response_def png_response_def slow_response_def

text \<open>
  Claim C1. What the code does with a 404 when \<open>retryCount\<close> is 5: the error built from
  status and body is thrown inside the \<open>try\<close> block, the \<open>catch\<close> block of the same
  iteration receives it, and since the attempt is not the last one the loop goes on. When
  the first attempt gets a 404 and the second a 200, \<open>request\<close> returns the data of the
  second attempt after two attempts; when every attempt gets a 404, \<open>request\<close> and
  \<open>requestBuffer\<close> throw the HTTP error after five attempts.
\<close>

theorem request_404_is_retried:
  "request (first_then (json_response 404 ''Not Found'') (json_response 200 ''data''))
      ''ai/llama33'' 5 10000 = (Some (Inr ''data''), 2) \<and>
   request (always (json_response 404 ''Not Found'')) ''ai/llama33'' 5 10000
      = (Some (Inl (HttpError 404 ''Not Found'')), 5) \<and>
   requestBuffer (always (json_response 404 ''Not Found'')) ''ai/dreamshaper'' 5 10000
      = (Some (Inl (HttpError 404 ''Not Found'')), 5)"
  by (simp add: eval_defs)


text \<open>
  Claim C4, as stated, fails: with \<open>retryCount = 2\<close>, a first attempt that gets a 200
  response of content type \<open>text/html\<close> is followed by a second attempt, and when that one
  gets an image the call returns its bytes.
\<close>

theorem text_html_is_retried:
  "fetch (first_then html_response png_response) 10000 1 = Inr html_response \<and>
   requestBuffer (first_then html_response png_response) ''ai/dreamshaper'' 2 10000
      = (Some (Inr [137, 80, 78, 71]), 2)"
  by (simp add: eval_defs)

text \<open>
  Claim C6, as stated, fails: with \<open>retryCount = 3\<close>, the first attempt gets a 2xx
  response, but its body does not parse as JSON; \<open>response.json()\<close> rejects, the \<open>catch\<close>
  block receives the rejection, and the sequence does not end there: three attempts are
  made and the call throws.
\<close>

theorem unparsable_2xx_is_retried:
  "fetch (always html_response) 10000 1 = Inr html_response \<and>
   ok html_response \<and>
   request (always html_response) ''ai/llama33'' 3 10000
      = (Some (Inl (OtherError ''SyntaxError'')), 3)"
  by (simp add: eval_defs)

text \<open>
  Claim C7, as stated, fails: with \<open>timeoutMs = 300\<close>, the first attempt gets its response
  after 120 ms and the body 652 ms later, so the attempt settles after more than 300 ms;
  it is not aborted, and \<open>request\<close> returns its data after this one attempt.
\<close>

theorem late_body_is_not_aborted:
  "behaviour (always slow_response) 1 = After 120 (Resolves slow_response) \<and>
   response_json slow_response = After 652 (Inr ''data'') \<and>
   (300::int) < 120 + 652 \<and>
   request (always slow_response) ''ai/llama33'' 3 300 = (Some (Inr ''data''), 1)"
  by (simp add: eval_defs)






lemma requestBuffer_try_non_binary:
  assumes "fetch net timeoutMs attempt = Inr response" and "ok response"
    and "\<not> includes_str (contentType_of response) ''application/octet-stream''"
    and "\<not> includes_str (contentType_of response) ''image/''"
  shows "requestBuffer_try net retryCount timeoutMs attempt = Some (Inl NonBinaryResponse)"
  using assms by (simp add: requestBuffer_try_def)

text \<open>
  Claim C4, amended. In \<open>requestBuffer\<close>, a 2xx response whose content type includes
  neither \<open>application/octet-stream\<close> nor \<open>image/\<close> makes its attempt fail with the
  non-binary error, so nothing of that response is returned. On the last attempt this
  error is what the call throws; on an earlier attempt the next attempt is made. In the
  witness a 200 response of content type \<open>text/html\<close> with \<open>retryCount = 1\<close> makes the call
  fail without bytes.
\<close>

theorem non_binary_content_type_fails_attempt:
  assumes "attempt \<le> retryCount"
    and "fetch net timeoutMs attempt = Inr response"
    and "ok response"
    and "\<not> includes_str (contentType_of response) ''application/octet-stream''"
    and "\<not> includes_str (contentType_of response) ''image/''"
  shows "requestBuffer_try net retryCount timeoutMs attempt = Some (Inl NonBinaryResponse) \<and>
    (attempt = retryCount \<longrightarrow>
       requestBuffer_loop net endpoint retryCount timeoutMs attempt
         = (Some (Inl NonBinaryResponse), 1)) \<and>
    (attempt < retryCount \<longrightarrow>
       requestBuffer_loop net endpoint retryCount timeoutMs attempt
         = counted (requestBuffer_loop net endpoint retryCount timeoutMs (attempt + 1)))"
proof -
  have t: "requestBuffer_try net retryCount timeoutMs attempt = Some (Inl NonBinaryResponse)"
    using assms(2-5) by (rule requestBuffer_try_non_binary)
  then show ?thesis
    by (auto simp: requestBuffer_loop_rethrown requestBuffer_loop_caught)
qed

theorem non_binary_content_type_fails_attempt_witness:
  "fetch (always html_response) 10000 1 = Inr html_response \<and>
   ok html_response \<and>
   \<not> includes_str (contentType_of html_response) ''application/octet-stream'' \<and>
   \<not> includes_str (contentType_of html_response) ''image/'' \<and>
   requestBuffer (always html_response) ''ai/dreamshaper'' 1 10000
     = (Some (Inl NonBinaryResponse), 1)"
proof -
  have h1: "(1::int) \<le> 1" by simp
  have h2: "fetch (always html_response) 10000 1 = Inr html_response"
    by (simp add: fetch_def always_def)
  have h3: "ok html_response"
    by (simp add: ok_def html_response_def)
  have h4: "\<not> includes_str (contentType_of html_response) ''application/octet-stream''"
    by (simp add: contentType_of_def html_response_def)
  have h5: "\<not> includes_str (contentType_of html_response) ''image/''"
    by (simp add: contentType_of_def html_response_def)
  from non_binary_content_type_fails_attempt
         [OF h1 h2 h3 h4 h5, where endpoint = "''ai/dreamshaper''"]
    h2 h3 h4 h5
  show ?thesis by (simp add: requestBuffer_def)
qed

lemma request_try_success:
  assumes "fetch net timeoutMs attempt = Inr response" and "ok response"
    and "response_json response = After d (Inr data)"
  shows "request_try net retryCount timeoutMs attempt = Some (Inr (Return data))"
  using assms by (simp add: request_try_def await_def)

lemma request_loop_fails:
  assumes "attempt < retryCount" and "fails net retryCount timeoutMs attempt"
  shows "request_loop net endpoint retryCount timeoutMs attempt
    = counted (request_loop net endpoint retryCount timeoutMs (attempt + 1))"
proof (cases "request_try net retryCount timeoutMs attempt")
  case None
  with assms(2) show ?thesis by (simp add: fails_def)
next
  case (Some r)
  show ?thesis
  proof (cases r)
    case (Inl e)
    with Some assms(1) show ?thesis by (simp add: request_loop_caught)
  next
    case (Inr fl)
    show ?thesis
    proof (cases fl)
      case Continue
      with Some Inr assms(1) show ?thesis by (simp add: request_loop_continue)
    next
      case (Return data)
      with Some Inr assms(2) show ?thesis by (simp add: fails_def)
    qed
  qed
qed

lemma request_try_last_not_continue:
  "request_try net retryCount timeoutMs retryCount \<noteq> Some (Inr Continue)"
  by (auto simp: request_try_def split: sum.splits if_splits option.splits)

lemma request_loop_last:
  "snd (request_loop net endpoint retryCount timeoutMs retryCount) = 1"
proof (cases "request_try net retryCount timeoutMs retryCount")
  case None
  then show ?thesis by (simp add: request_loop_pending)
next
  case (Some r)
  show ?thesis
  proof (cases r)
    case (Inl e)
    with Some show ?thesis by (simp add: request_loop_rethrown)
  next
    case (Inr fl)
    show ?thesis
    proof (cases fl)
      case Continue
      with Some Inr request_try_last_not_continue [of net retryCount timeoutMs]
      show ?thesis by simp
    next
      case (Return data)
      with Some Inr show ?thesis by (simp add: request_loop_return)
    qed
  qed
qed

lemma request_loop_bound:
  "n = nat (retryCount + 1 - attempt) \<Longrightarrow>
   snd (request_loop net endpoint retryCount timeoutMs attempt) \<le> n"
proof (induction n arbitrary: attempt)
  case 0
  then have "retryCount < attempt" by simp
  then show ?case by (simp add: request_loop_exhausted)
next
  case (Suc n)
  then have le: "attempt \<le> retryCount" by simp
  show ?case
  proof (cases "attempt = retryCount")
    case True
    then show ?thesis by (simp add: request_loop_last)
  next
    case False
    with le have lt: "attempt < retryCount" by simp
    have n: "n = nat (retryCount + 1 - (attempt + 1))" using Suc.prems by simp
    have IH: "snd (request_loop net endpoint retryCount timeoutMs (attempt + 1)) \<le> n"
      using n by (rule Suc.IH)
    show ?thesis
    proof (cases "request_try net retryCount timeoutMs attempt")
      case None
      with le show ?thesis by (simp add: request_loop_pending)
    next
      case (Some r)
      show ?thesis
      proof (cases r)
        case (Inl e)
        with Some lt IH show ?thesis by (simp add: request_loop_caught counted_def)
      next
        case (Inr fl)
        with Some le IH show ?thesis
          by (cases fl) (simp_all add: request_loop_continue request_loop_return counted_def)
      qed
    qed
  qed
qed

lemma request_loop_skip:
  assumes "k \<le> retryCount"
    and "\<forall>i. a \<le> i \<and> i < k \<longrightarrow> fails net retryCount timeoutMs i"
    and "a \<le> k" and "n = nat (k - a)"
  shows "request_loop net endpoint retryCount timeoutMs a
    = (fst (request_loop net endpoint retryCount timeoutMs k),
       snd (request_loop net endpoint retryCount timeoutMs k) + n)"
  using assms(2-4)
proof (induction n arbitrary: a)
  case 0
  then have "a = k" by simp
  then show ?case by simp
next
  case (Suc n)
  then have lt: "a < k" by simp
  with Suc.prems(1) have "fails net retryCount timeoutMs a" by simp
  moreover from lt assms(1) have "a < retryCount" by simp
  ultimately have step: "request_loop net endpoint retryCount timeoutMs a
      = counted (request_loop net endpoint retryCount timeoutMs (a + 1))"
    by (simp add: request_loop_fails)
  have "request_loop net endpoint retryCount timeoutMs (a + 1)
    = (fst (request_loop net endpoint retryCount timeoutMs k),
       snd (request_loop net endpoint retryCount timeoutMs k) + n)"
  proof (rule Suc.IH)
    show "\<forall>i. a + 1 \<le> i \<and> i < k \<longrightarrow> fails net retryCount timeoutMs i"
      using Suc.prems(1) by simp
    show "a + 1 \<le> k" using lt by simp
    show "n = nat (k - (a + 1))" using Suc.prems(3) by simp
  qed
  with step show ?case by (simp add: counted_def)
qed

text \<open>
  Claim C6, amended. \<open>request\<close> makes at most \<open>retryCount\<close> attempts. When attempt \<open>k\<close> of
  the loop gets a 2xx response and the read of its body as JSON settles with \<open>data\<close>, the
  loop ends there: from that attempt on exactly one \<open>fetch\<close> is made and \<open>data\<close> is
  returned. So when every attempt before \<open>k\<close> has failed, the call returns \<open>data\<close> after
  exactly \<open>k\<close> attempts. In the witness attempt 2 of 3 succeeds and no third attempt is
  made.
\<close>

theorem success_ends_sequence:
  "snd (request net endpoint retryCount timeoutMs) \<le> nat retryCount \<and>
   (k \<le> retryCount \<and> fetch net timeoutMs k = Inr response \<and> ok response
      \<and> response_json response = After d (Inr data) \<longrightarrow>
    request_loop net endpoint retryCount timeoutMs k = (Some (Inr data), 1) \<and>
    (1 \<le> k \<and> (\<forall>i. 1 \<le> i \<and> i < k \<longrightarrow> fails net retryCount timeoutMs i) \<longrightarrow>
     request net endpoint retryCount timeoutMs = (Some (Inr data), nat k)))"
proof -
  have bound: "snd (request net endpoint retryCount timeoutMs) \<le> nat retryCount"
    using request_loop_bound [of "nat retryCount" retryCount 1 net endpoint timeoutMs]
    by (simp add: request_def)
  have ends: "request_loop net endpoint retryCount timeoutMs k = (Some (Inr data), 1)"
    if "k \<le> retryCount" "fetch net timeoutMs k = Inr response" "ok response"
      "response_json response = After d (Inr data)"
    using that by (simp add: request_loop_return request_try_success)
  have whole: "request net endpoint retryCount timeoutMs = (Some (Inr data), nat k)"
    if "k \<le> retryCount" "fetch net timeoutMs k = Inr response" "ok response"
      "response_json response = After d (Inr data)" "1 \<le> k"
      "\<forall>i. 1 \<le> i \<and> i < k \<longrightarrow> fails net retryCount timeoutMs i"
  proof -
    have "request_loop net endpoint retryCount timeoutMs 1
      = (fst (request_loop net endpoint retryCount timeoutMs k),
         snd (request_loop net endpoint retryCount timeoutMs k) + nat (k - 1))"
      using that(1,6,5) by (intro request_loop_skip) simp_all
    also have "\<dots> = (Some (Inr data), 1 + nat (k - 1))"
      using ends [OF that(1-4)] by simp
    also have "1 + nat (k - 1) = nat k" using that(5) by simp
    finally show ?thesis by (simp add: request_def)
  qed
  from bound ends whole show ?thesis by blast
qed

theorem success_ends_sequence_witness:
  "(2::int) \<le> 3 \<and>
   fetch (first_then (json_response 503 ''busy'') (json_response 200 ''data'')) 10000 2
     = Inr (json_response 200 ''data'') \<and>
   ok (json_response 200 ''data'') \<and>
   response_json (json_response 200 ''data'') = After 5 (Inr ''data'') \<and>
   fails (first_then (json_response 503 ''busy'') (json_response 200 ''data'')) 3 10000 1 \<and>
   request (first_then (json_response 503 ''busy'') (json_response 200 ''data''))
     ''ai/llama33'' 3 10000 = (Some (Inr ''data''), 2)"
proof -
  let ?net = "first_then (json_response 503 ''busy'') (json_response 200 ''data'')"
  let ?r = "json_response 200 ''data''"
  have h1: "(2::int) \<le> 3" by simp
  have h2: "fetch ?net 10000 2 = Inr ?r" by (simp add: fetch_def first_then_def)
  have h3: "ok ?r" by (simp add: ok_def json_response_def)
  have h4: "response_json ?r = After 5 (Inr ''data'')" by (simp add: json_response_def)
  have h5: "fails ?net 3 10000 1"
    by (simp add: fails_def request_try_def fetch_def first_then_def ok_def json_response_def)
  have h6: "\<forall>i. 1 \<le> i \<and> i < 2 \<longrightarrow> fails ?net 3 10000 i"
  proof (intro allI impI)
    fix i :: int
    assume "1 \<le> i \<and> i < 2"
    then have "i = 1" by simp
    with h5 show "fails ?net 3 10000 i" by simp
  qed
  from success_ends_sequence [of ?net "''ai/llama33''" 3 10000 2 ?r 5 "''data''"]
    h1 h2 h3 h4 h5 h6
  show ?thesis by simp
qed

lemma fetch_aborted:
  "\<not> fetch_settles_within timeoutMs (behaviour net attempt) \<Longrightarrow>
   fetch net timeoutMs attempt = Inl AbortError"
  by (cases "behaviour net attempt") (simp_all add: fetch_settles_within_def fetch_def)

text \<open>
  Claim C7, amended. When the \<open>fetch\<close> call of an attempt, that is the underlying request
  up to its response, does not settle within \<open>timeoutMs\<close> (it never settles, or settles
  later), \<open>fetch\<close> rejects with the abort error and the attempt is counted. In \<open>request\<close>
  and in \<open>requestBuffer\<close> alike, when attempts remain the next attempt is made, and on the
  last attempt the abort error is what the call throws.
\<close>

theorem timeout_aborts_attempt:
  assumes "attempt \<le> retryCount"
    and "\<not> fetch_settles_within timeoutMs (behaviour net attempt)"
  shows "fetch net timeoutMs attempt = Inl AbortError \<and>
    (attempt < retryCount \<longrightarrow>
       request_loop net endpoint retryCount timeoutMs attempt
         = counted (request_loop net endpoint retryCount timeoutMs (attempt + 1)) \<and>
       requestBuffer_loop net endpoint retryCount timeoutMs attempt
         = counted (requestBuffer_loop net endpoint retryCount timeoutMs (attempt + 1))) \<and>
    (attempt = retryCount \<longrightarrow>
       request_loop net endpoint retryCount timeoutMs attempt = (Some (Inl AbortError), 1) \<and>
       requestBuffer_loop net endpoint retryCount timeoutMs attempt
         = (Some (Inl AbortError), 1))"
proof -
  have f: "fetch net timeoutMs attempt = Inl AbortError"
    using assms(2) by (rule fetch_aborted)
  then have t1: "request_try net retryCount timeoutMs attempt = Some (Inl AbortError)"
    by (simp add: request_try_def)
  from f have t2: "requestBuffer_try net retryCount timeoutMs attempt = Some (Inl AbortError)"
    by (simp add: requestBuffer_try_def)
  from f t1 t2 show ?thesis
    by (auto simp: request_loop_caught request_loop_rethrown requestBuffer_loop_caught
        requestBuffer_loop_rethrown)
qed

theorem timeout_aborts_attempt_witness:
  "\<not> fetch_settles_within 10000 (behaviour silent 1) \<and>
   \<not> fetch_settles_within 10000 (behaviour silent 2) \<and>
   request silent ''ai/llama33'' 2 10000 = (Some (Inl AbortError), 2) \<and>
   requestBuffer silent ''ai/dreamshaper'' 2 10000 = (Some (Inl AbortError), 2)"
proof -
  have h1: "\<not> fetch_settles_within 10000 (behaviour silent 1)"
    by (simp add: fetch_settles_within_def silent_def)
  have h2: "\<not> fetch_settles_within 10000 (behaviour silent 2)"
    by (simp add: fetch_settles_within_def silent_def)
  have l1: "(1::int) \<le> 2" and l2: "(2::int) \<le> 2" by simp_all
  from timeout_aborts_attempt [OF l1 h1, where endpoint = "''ai/llama33''"]
    timeout_aborts_attempt [OF l2 h2, where endpoint = "''ai/llama33''"]
  have a: "request silent ''ai/llama33'' 2 10000 = (Some (Inl AbortError), 2)"
    by (simp add: request_def counted_def)
  from timeout_aborts_attempt [OF l1 h1, where endpoint = "''ai/dreamshaper''"]
    timeout_aborts_attempt [OF l2 h2, where endpoint = "''ai/dreamshaper''"]
  have b: "requestBuffer silent ''ai/dreamshaper'' 2 10000 = (Some (Inl AbortError), 2)"
    by (simp add: requestBuffer_def counted_def)
  from h1 h2 a b show ?thesis by simp
qed

end
